theory Spec2Isabelle
  imports Complex_Main "HOL-Library.Char_ord" "HOL-Library.List_Lexorder" "HOL-Library.Sublist"
    "HOL-Library.Multiset"
begin

section \<open>Data model of \<open>app.py\<close>\<close>

text \<open>
  The dashboard script reads one wide table (one row per state, one column per year),
  melts it into a long table and derives every view from the two. Cells of the rainfall
  columns are finite numbers; they are modelled as exact reals, so the rounding error of
  64-bit floats and not-a-number cells are outside the model. Exceptions of the script
  are values of \<open>py_error\<close>.
\<close>

datatype py_error = KeyError | ValueError | AttributeError | StreamlitAPIException

text \<open>
  A row of the GeoDataFrame: the \<open>State\<close> cell and the numeric cell of every named column.
  Which names are columns of the frame is recorded once for the frame, as pandas does.
  The frame \<open>gdf\<close> of the definitions below is what \<open>load_data()\<close> returns at line 17;
  under \<open>st.cache_data\<close> that is the run's own copy of the table read from the file.
\<close>

record feature =
  feat_State :: string
  feat_attr :: "string \<Rightarrow> real"

record geo_frame =
  columns :: "string list"
  rows :: "feature list"

text \<open>
  A row of the melted frame \<open>df_new\<close>: columns \<open>State\<close>, \<open>Year\<close> and \<open>Rainfall (mm)\<close>.
  The \<open>Year\<close> column holds the column name first and an integer after line 34.
\<close>

record 'y melted =
  State :: string
  Year :: 'y
  Rainfall_mm :: real

section \<open>Python and pandas primitives used by the script\<close>

text \<open>\<open>str(n)\<close> for an integer, as the f-string \<open>f"{year}_mean"\<close> renders it.\<close>

definition digit_char :: "nat \<Rightarrow> char" where
  "digit_char d = ''0123456789'' ! d"

fun str_nat :: "nat \<Rightarrow> string" where
  "str_nat n = (if n < 10 then [digit_char n] else str_nat (n div 10) @ [digit_char (n mod 10)])"

declare str_nat.simps [simp del]

definition py_str :: "int \<Rightarrow> string" where
  "py_str i = (if i < 0 then CHR ''-'' # str_nat (nat (- i)) else str_nat (nat i))"

text \<open>
  \<open>s.replace(pat, repl)\<close>: every non-overlapping occurrence of \<open>pat\<close>, scanning from the
  left (\<open>Series.str.replace\<close> applies it to each cell; \<open>_mean\<close> has no regex character).
\<close>

function str_replace :: "string \<Rightarrow> string \<Rightarrow> string \<Rightarrow> string" where
  "str_replace pat repl s =
     (if pat = [] then repl @ concat (map (\<lambda>c. c # repl) s)
      else if s = [] then []
      else if take (length pat) s = pat then repl @ str_replace pat repl (drop (length pat) s)
      else hd s # str_replace pat repl (tl s))"
  by pat_completeness auto
termination
  by (relation "measure (\<lambda>(pat, repl, s). length s)") auto

declare str_replace.simps [simp del]

text \<open>
  \<open>int(s)\<close> on a string, which \<open>astype(int)\<close> applies to each cell: surrounding white
  space is dropped, one sign is allowed, then decimal digits with single underscores
  between them. \<open>None\<close> stands for the \<open>ValueError\<close> of \<open>int\<close>.
\<close>

definition is_digit :: "char \<Rightarrow> bool" where
  "is_digit c = (c \<in> set ''0123456789'')"

definition digit_val :: "char \<Rightarrow> int" where
  "digit_val c = int (of_char c) - 48"

definition is_space :: "char \<Rightarrow> bool" where
  "is_space c = (c \<in> set [CHR '' '', CHR 0x09, CHR 0x0A, CHR 0x0B, CHR 0x0C, CHR 0x0D])"

definition strip :: "string \<Rightarrow> string" where
  "strip s = rev (dropWhile is_space (rev (dropWhile is_space s)))"

fun digits_from :: "int \<Rightarrow> string \<Rightarrow> int option" where
  "digits_from acc [] = Some acc"
| "digits_from acc [c] = (if is_digit c then Some (10 * acc + digit_val c) else None)"
| "digits_from acc (c # d # ds) =
     (if is_digit c then digits_from (10 * acc + digit_val c) (d # ds)
      else if c = CHR ''_'' \<and> is_digit d then digits_from (10 * acc + digit_val d) ds
      else None)"

definition unsigned_int :: "string \<Rightarrow> int option" where
  "unsigned_int s =
     (case s of
        [] \<Rightarrow> None
      | c # cs \<Rightarrow> if is_digit c then digits_from (digit_val c) cs else None)"

definition py_int :: "string \<Rightarrow> int option" where
  "py_int s =
     (case strip s of
        [] \<Rightarrow> None
      | c # cs \<Rightarrow>
          if c = CHR ''-'' then map_option uminus (unsigned_int cs)
          else if c = CHR ''+'' then unsigned_int cs
          else unsigned_int (c # cs))"

text \<open>
  \<open>DataFrame.melt(id_vars=["State"], value_vars=...)\<close>: \<open>KeyError\<close> when a named column
  is not in the frame; otherwise, for each value column in turn, one row per row of the
  frame, in the frame's order.
\<close>

definition melt :: "geo_frame \<Rightarrow> string list \<Rightarrow> py_error + string melted list" where
  "melt frame value_vars =
     (if list_all (\<lambda>c. c \<in> set (columns frame)) (''State'' # value_vars)
      then Inr (concat (map (\<lambda>c. map (\<lambda>f. \<lparr>State = feat_State f, Year = c,
                                             Rainfall_mm = feat_attr f c\<rparr>) (rows frame))
                            value_vars))
      else Inl KeyError)"

text \<open>
  Line 34, \<open>df_new["Year"].str.replace("_mean", "").astype(int)\<close>: every cell of the column
  is rewritten and parsed; one cell that does not parse raises \<open>ValueError\<close> for the whole
  column.
\<close>

fun year_astype_int :: "string melted list \<Rightarrow> py_error + int melted list" where
  "year_astype_int [] = Inr []"
| "year_astype_int (r # rs) =
     (case py_int (str_replace ''_mean'' '''' (Year r)) of
        None \<Rightarrow> Inl ValueError
      | Some y \<Rightarrow>
          (case year_astype_int rs of
             Inl e \<Rightarrow> Inl e
           | Inr rs' \<Rightarrow> Inr (\<lparr>State = State r, Year = y, Rainfall_mm = Rainfall_mm r\<rparr> # rs')))"

section \<open>The reshaping of lines 28 to 38\<close>

definition year_column :: "int \<Rightarrow> string" where
  "year_column year = py_str year @ ''_mean''"

definition value_vars :: "string list" where
  "value_vars = map year_column [2014..2024]"

definition df_new :: "geo_frame \<Rightarrow> py_error + int melted list" where
  "df_new gdf = (case melt gdf value_vars of Inl e \<Rightarrow> Inl e | Inr m \<Rightarrow> year_astype_int m)"

text \<open>
  \<open>Series.unique()\<close>: the distinct values in order of first appearance. Python's
  \<open>sorted\<close> is a stable ascending sort, as \<open>sort\<close> of the list library is; integers
  compare numerically and strings by code point, character by character.
\<close>

fun unique :: "'a list \<Rightarrow> 'a list" where
  "unique [] = []"
| "unique (x # xs) = x # unique (filter (\<lambda>y. y \<noteq> x) xs)"

definition years :: "int melted list \<Rightarrow> int list" where
  "years recs = sort (unique (map Year recs))"

definition states :: "'y melted list \<Rightarrow> string list" where
  "states recs = sort (unique (map State recs))"

section \<open>The selectors\<close>

text \<open>
  \<open>st.selectbox(label, options, index=i)\<close> on first render: with no option it returns
  \<open>None\<close>; otherwise the option at \<open>i\<close>, and an index outside \<open>0 \<le> i < len(options)\<close>
  raises \<open>StreamlitAPIException\<close>.
\<close>

definition selectbox :: "'a list \<Rightarrow> int \<Rightarrow> py_error + 'a option" where
  "selectbox options index =
     (if options = [] then Inr None
      else if 0 \<le> index \<and> index < int (length options) then Inr (Some (options ! nat index))
      else Inl StreamlitAPIException)"

definition year_selected :: "int melted list \<Rightarrow> py_error + int option" where
  "year_selected recs = selectbox (years recs) (int (length (years recs)) - 1)"

definition state_selected :: "int melted list \<Rightarrow> py_error + string option" where
  "state_selected recs = selectbox (states recs) 0"

section \<open>Views of the selected year\<close>

text \<open>Line 50: the rows of the long table whose year is the selected one.\<close>

definition year_data :: "int melted list \<Rightarrow> int \<Rightarrow> int melted list" where
  "year_data recs year = filter (\<lambda>r. Year r = year) recs"


text \<open>
  \<open>DataFrame.nlargest(n, column)\<close> and \<open>nsmallest\<close> with the default \<open>keep='first'\<close>: the
  first \<open>n\<close> rows in descending (ascending) order of the column, rows of equal value in
  their original order.
\<close>

definition nlargest :: "nat \<Rightarrow> ('a \<Rightarrow> real) \<Rightarrow> 'a list \<Rightarrow> 'a list" where
  "nlargest n col df = take n (sort_key (\<lambda>r. - col r) df)"

definition nsmallest :: "nat \<Rightarrow> ('a \<Rightarrow> real) \<Rightarrow> 'a list \<Rightarrow> 'a list" where
  "nsmallest n col df = take n (sort_key col df)"

text \<open>Lines 78 and 79; the projection keeps the two displayed columns.\<close>

definition top3 :: "int melted list \<Rightarrow> (string \<times> real) list" where
  "top3 yd = map (\<lambda>r. (State r, Rainfall_mm r)) (nlargest 3 Rainfall_mm yd)"

definition low3 :: "int melted list \<Rightarrow> (string \<times> real) list" where
  "low3 yd = map (\<lambda>r. (State r, Rainfall_mm r)) (nsmallest 3 Rainfall_mm yd)"



text \<open>
  \<open>Series.mean()\<close>: the sum over the count, and \<open>nan\<close> (here \<open>None\<close>) when there is no
  value. \<open>min()\<close> and \<open>max()\<close> likewise.
\<close>

definition series_mean :: "real list \<Rightarrow> real option" where
  "series_mean vs =
     (let count = length vs; the_sum = sum_list vs
      in if count > 0 then Some (the_sum / real count) else None)"



text \<open>
  \<open>round(3)\<close> of a numpy float: the value times \<open>10 ^ 3\<close>, rounded to the nearest integer
  with a tie going to the even one, divided by \<open>10 ^ 3\<close>.
\<close>

definition rint :: "real \<Rightarrow> int" where
  "rint x =
     (let f = \<lfloor>x\<rfloor>; d = x - of_int f
      in if d < 1 / 2 then f else if 1 / 2 < d then f + 1 else if even f then f else f + 1)"

definition np_round :: "nat \<Rightarrow> real \<Rightarrow> real" where
  "np_round decimals x = of_int (rint (x * 10 ^ decimals)) / 10 ^ decimals"

text \<open>
  Line 95, \<open>year_data["Rainfall (mm)"].mean().round(3)\<close>. The mean of a column with no
  row is the plain Python float \<open>nan\<close>, which has no method \<open>round\<close>: the line raises
  \<open>AttributeError\<close> and yields no number.
\<close>

definition national_avg :: "int melted list \<Rightarrow> py_error + real" where
  "national_avg yd =
     (case series_mean (map Rainfall_mm yd) of
        None \<Rightarrow> Inl AttributeError
      | Some m \<Rightarrow> Inr (np_round 3 m))"





section \<open>The series of the selected state\<close>

text \<open>Line 143: the rows of the state, sorted by year.\<close>

definition state_data :: "int melted list \<Rightarrow> string \<Rightarrow> int melted list" where
  "state_data recs st = sort_key Year (filter (\<lambda>r. State r = st) recs)"

section \<open>The long table in closed form\<close>

text \<open>
  The rows that melting produces when it succeeds: for each year in turn, one row per
  row of the wide table.
\<close>

definition long_rows :: "feature list \<Rightarrow> int list \<Rightarrow> int melted list" where
  "long_rows fs ys =
     concat (map (\<lambda>y. map (\<lambda>f. \<lparr>State = feat_State f, Year = y,
                                   Rainfall_mm = feat_attr f (year_column y)\<rparr>) fs) ys)"

section \<open>Sample tables\<close>

text \<open>
  Three states with all eleven year columns and a geometry column: 100, 200 and 300 mm in
  2014; 150, 50 and 300 mm in every later year.
\<close>

definition gdf_abc :: geo_frame where
  "gdf_abc =
     \<lparr>columns = ''State'' # value_vars @ [''geometry''],
      rows = [\<lparr>feat_State = ''A'', feat_attr = (\<lambda>c. if c = ''2014_mean'' then 100 else 150)\<rparr>,
              \<lparr>feat_State = ''B'', feat_attr = (\<lambda>c. if c = ''2014_mean'' then 200 else 50)\<rparr>,
              \<lparr>feat_State = ''C'', feat_attr = (\<lambda>c. 300)\<rparr>]\<rparr>"

text \<open>Two rows of a long table: Benue in 2015 and Abia in 2014.\<close>

definition recs_two :: "int melted list" where
  "recs_two = [\<lparr>State = ''Benue'', Year = 2015, Rainfall_mm = 1200\<rparr>,
               \<lparr>State = ''Abia'', Year = 2014, Rainfall_mm = 2100\<rparr>]"

text \<open>
  A year slice of seven states with two ties: 2500 mm twice at the top, 600 mm twice
  near the bottom.
\<close>

definition yd_seven :: "int melted list" where
  "yd_seven =
     [\<lparr>State = ''Abia'', Year = 2014, Rainfall_mm = 2100\<rparr>,
      \<lparr>State = ''Borno'', Year = 2014, Rainfall_mm = 600\<rparr>,
      \<lparr>State = ''Cross River'', Year = 2014, Rainfall_mm = 2500\<rparr>,
      \<lparr>State = ''Delta'', Year = 2014, Rainfall_mm = 2500\<rparr>,
      \<lparr>State = ''Edo'', Year = 2014, Rainfall_mm = 1800\<rparr>,
      \<lparr>State = ''Kano'', Year = 2014, Rainfall_mm = 600\<rparr>,
      \<lparr>State = ''Yobe'', Year = 2014, Rainfall_mm = 450\<rparr>]"




lemma upto_years: "[2014..2024] = [2014,2015,2016,2017,2018,2019,2020,2021,2022,2023,2024::int]"
  by (simp add: upto_rec1)

lemma year_column_eq:
  "map year_column [2014,2015,2016,2017,2018,2019,2020,2021,2022,2023,2024] =
   [''2014_mean'', ''2015_mean'', ''2016_mean'', ''2017_mean'', ''2018_mean'',
    ''2019_mean'', ''2020_mean'', ''2021_mean'', ''2022_mean'', ''2023_mean'', ''2024_mean'']"
  by (simp add: year_column_def py_str_def str_nat.simps digit_char_def)

lemma parse_columns:
  "map (\<lambda>c. py_int (str_replace ''_mean'' '''' c))
     [''2014_mean'', ''2015_mean'', ''2016_mean'', ''2017_mean'', ''2018_mean'',
      ''2019_mean'', ''2020_mean'', ''2021_mean'', ''2022_mean'', ''2023_mean'', ''2024_mean'']
   = map Some [2014,2015,2016,2017,2018,2019,2020,2021,2022,2023,2024]"
  by (simp add: str_replace.simps py_int_def strip_def is_space_def unsigned_int_def is_digit_def digit_val_def)

lemma parse_value_vars:
  "map (\<lambda>y. py_int (str_replace ''_mean'' '''' (year_column y))) [2014..2024] = map Some [2014..2024]"
proof -
  have "map (\<lambda>y. py_int (str_replace ''_mean'' '''' (year_column y))) [2014..2024]
        = map (\<lambda>c. py_int (str_replace ''_mean'' '''' c)) (map year_column [2014..2024])"
    by (simp only: map_map comp_def)
  also have "\<dots> = map Some [2014..2024]"
    by (simp only: upto_years year_column_eq parse_columns)
  finally show ?thesis .
qed

lemma year_of_column:
  assumes "y \<in> set [2014..2024]"
  shows "py_int (str_replace ''_mean'' '''' (year_column y)) = Some y"
  using parse_value_vars assms unfolding map_eq_conv by blast

lemma year_astype_int_append:
  "year_astype_int (a @ b) =
     (case year_astype_int a of
        Inl e \<Rightarrow> Inl e
      | Inr a' \<Rightarrow> (case year_astype_int b of Inl e \<Rightarrow> Inl e | Inr b' \<Rightarrow> Inr (a' @ b')))"
  by (induction a) (auto split: option.splits sum.splits)

lemma year_astype_int_block:
  assumes "py_int (str_replace ''_mean'' '''' c) = Some y"
  shows "year_astype_int (map (\<lambda>f. \<lparr>State = feat_State f, Year = c, Rainfall_mm = feat_attr f c\<rparr>) fs)
         = Inr (map (\<lambda>f. \<lparr>State = feat_State f, Year = y, Rainfall_mm = feat_attr f c\<rparr>) fs)"
  using assms by (induction fs) auto

lemma year_astype_int_blocks:
  assumes "\<forall>y \<in> set ys. py_int (str_replace ''_mean'' '''' (year_column y)) = Some y"
  shows "year_astype_int
           (concat (map (\<lambda>c. map (\<lambda>f. \<lparr>State = feat_State f, Year = c, Rainfall_mm = feat_attr f c\<rparr>) fs)
                        (map year_column ys)))
         = Inr (concat (map (\<lambda>y. map (\<lambda>f. \<lparr>State = feat_State f, Year = y,
                                              Rainfall_mm = feat_attr f (year_column y)\<rparr>) fs) ys))"
  using assms
  by (induction ys) (auto simp: year_astype_int_append year_astype_int_block)

lemma df_new_closed_form:
  assumes "list_all (\<lambda>c. c \<in> set (columns gdf)) (''State'' # value_vars)"
  shows "df_new gdf = Inr (long_rows (rows gdf) [2014..2024])"
proof -
  have "melt gdf value_vars =
        Inr (concat (map (\<lambda>c. map (\<lambda>f. \<lparr>State = feat_State f, Year = c,
                                           Rainfall_mm = feat_attr f c\<rparr>) (rows gdf))
                         (map year_column [2014..2024])))"
    using assms unfolding melt_def by (simp add: value_vars_def)
  moreover have "\<forall>y \<in> set [2014..2024]. py_int (str_replace ''_mean'' '''' (year_column y)) = Some y"
    using year_of_column by blast
  ultimately show ?thesis
    unfolding df_new_def long_rows_def using year_astype_int_blocks [of "[2014..2024]" "rows gdf"]
    by (simp del: set_upto)
qed

lemma df_new_KeyError:
  assumes "\<not> list_all (\<lambda>c. c \<in> set (columns gdf)) (''State'' # value_vars)"
  shows "df_new gdf = Inl KeyError"
proof -
  have "melt gdf value_vars = Inl KeyError"
    unfolding melt_def using assms by (simp only: if_False)
  then show ?thesis unfolding df_new_def by simp
qed



lemma year_data_long_rows:
  "year_data (long_rows fs ys) y = long_rows fs (filter (\<lambda>x. x = y) ys)"
  unfolding long_rows_def year_data_def by (induction ys) (auto simp: filter_map comp_def)

lemma filter_eq_singleton:
  "distinct ys \<Longrightarrow> y \<in> set ys \<Longrightarrow> filter (\<lambda>x. x = y) ys = [y]"
  by (induction ys) (auto simp: filter_empty_conv)

lemma year_data_long_rows_in:
  assumes "distinct ys" "y \<in> set ys"
  shows "year_data (long_rows fs ys) y
         = map (\<lambda>f. \<lparr>State = feat_State f, Year = y,
                       Rainfall_mm = feat_attr f (year_column y)\<rparr>) fs"
  using filter_eq_singleton [OF assms]
  by (simp add: year_data_long_rows) (simp add: long_rows_def)


lemma set_pairs_block:
  "set (map (\<lambda>f. (feat_State f, y)) fs) = (\<lambda>s. (s, y)) ` set (map feat_State fs)"
  by (auto simp: image_iff)


lemma gdf_abc_columns:
  "list_all (\<lambda>c. c \<in> set (columns gdf_abc)) (''State'' # value_vars)"
  by (simp add: gdf_abc_def list_all_iff)

section \<open>C1: the long table is the product of rows and years\<close>



section \<open>Distinct values, sorted\<close>

lemma set_unique: "set (unique xs) = set xs"
proof (induction xs rule: unique.induct)
  case 1
  then show ?case by simp
next
  case (2 x xs)
  then show ?case by auto
qed

lemma distinct_unique: "distinct (unique xs)"
proof (induction xs rule: unique.induct)
  case 1
  then show ?case by simp
next
  case (2 x xs)
  then show ?case by (simp add: set_unique)
qed

lemma unique_distinct: "distinct xs \<Longrightarrow> unique xs = xs"
proof (induction xs)
  case Nil
  then show ?case by simp
next
  case (Cons x xs)
  then have "filter (\<lambda>y. y \<noteq> x) xs = xs"
    by (simp add: filter_id_conv) blast
  with Cons show ?case by simp
qed

lemma sort_unique_strict:
  fixes xs :: "'a::linorder list"
  shows "sorted_wrt (<) (sort (unique xs))"
  by (simp add: strict_sorted_iff distinct_unique)

lemma sort_unique_idem:
  fixes xs :: "'a::linorder list"
  shows "sort (unique (sort (unique xs))) = sort (unique xs)"
proof -
  have "unique (sort (unique xs)) = sort (unique xs)"
    by (rule unique_distinct) (simp add: distinct_unique)
  then show ?thesis by (simp add: sorted_sort_id)
qed

section \<open>C6: the option lists of the two selectors\<close>

text \<open>
  Claim C6. The year list and the state list of lines 37 and 38 are strictly ascending
  (years as numbers, state names in the lexicographic order of their characters), hence
  free of duplicates; they hold exactly the years, respectively the state names, that
  occur in the long table; and deduplicating and sorting such a list again returns it
  unchanged.
\<close>

theorem years_states_strictly_sorted:
  fixes recs :: "int melted list"
  shows "sorted_wrt (<) (years recs) \<and> distinct (years recs)
       \<and> set (years recs) = Year ` set recs
       \<and> sorted_wrt (<) (states recs) \<and> distinct (states recs)
       \<and> set (states recs) = State ` set recs
       \<and> sort (unique (years recs)) = years recs
       \<and> sort (unique (states recs)) = states recs"
proof -
  have y1: "sorted_wrt (<) (years recs)"
    unfolding years_def by (rule sort_unique_strict)
  have y2: "distinct (years recs)"
    unfolding years_def by (simp add: distinct_unique)
  have y3: "set (years recs) = Year ` set recs"
    unfolding years_def by (simp add: set_unique)
  have y4: "sort (unique (years recs)) = years recs"
    unfolding years_def by (rule sort_unique_idem)
  have s1: "sorted_wrt (<) (states recs)"
    unfolding states_def by (rule sort_unique_strict)
  have s2: "distinct (states recs)"
    unfolding states_def by (simp add: distinct_unique)
  have s3: "set (states recs) = State ` set recs"
    unfolding states_def by (simp add: set_unique)
  have s4: "sort (unique (states recs)) = states recs"
    unfolding states_def by (rule sort_unique_idem)
  show ?thesis
    by (intro conjI y1 y2 y3 y4 s1 s2 s3 s4)
qed

section \<open>C9: the defaults of the two selectors\<close>

lemma sorted_hd_Min:
  fixes xs :: "'a::linorder list"
  assumes "sorted xs" "xs \<noteq> []"
  shows "hd xs = Min (set xs)"
proof -
  obtain y ys where xs: "xs = y # ys" using assms(2) by (cases xs) auto
  have "Min (set xs) = y"
    using assms(1) unfolding xs by (intro Min_eqI) auto
  then show ?thesis by (simp add: xs)
qed

lemma sorted_le_last:
  fixes xs :: "'a::linorder list"
  shows "sorted xs \<Longrightarrow> y \<in> set xs \<Longrightarrow> y \<le> last xs"
  by (induction xs) auto

lemma sorted_last_Max:
  fixes xs :: "'a::linorder list"
  assumes "sorted xs" "xs \<noteq> []"
  shows "last xs = Max (set xs)"
proof -
  have "Max (set xs) = last xs"
    using assms by (intro Max_eqI) (auto simp: sorted_le_last)
  then show ?thesis by simp
qed

lemma selectbox_first: "xs \<noteq> [] \<Longrightarrow> selectbox xs 0 = Inr (Some (hd xs))"
  by (cases xs) (simp_all add: selectbox_def)

lemma selectbox_last:
  "xs \<noteq> [] \<Longrightarrow> selectbox xs (int (length xs) - 1) = Inr (Some (last xs))"
proof -
  assume ne: "xs \<noteq> []"
  then have "0 < length xs" by simp
  then have "nat (int (length xs) - 1) = length xs - 1" by simp
  then show ?thesis
    using ne by (simp add: selectbox_def last_conv_nth)
qed

text \<open>
  Claim C9. With at least one row in the long table, the year selector starts at the
  largest year of the table (the last entry of the sorted year list, index
  \<open>len(years) - 1\<close>) and the state selector at the least state name in lexicographic
  order (the first entry of the sorted state list, index 0).
\<close>

theorem selector_defaults:
  fixes recs :: "int melted list"
  assumes "recs \<noteq> []"
  shows "year_selected recs = Inr (Some (Max (Year ` set recs)))
       \<and> year_selected recs = Inr (Some (last (years recs)))
       \<and> state_selected recs = Inr (Some (Min (State ` set recs)))
       \<and> state_selected recs = Inr (Some (hd (states recs)))"
proof -
  have yne: "years recs \<noteq> []"
    using assms unfolding years_def by (cases recs) simp_all
  have sne: "states recs \<noteq> []"
    using assms unfolding states_def by (cases recs) simp_all
  have ys: "sorted (years recs)" unfolding years_def by simp
  have ss: "sorted (states recs)" unfolding states_def by simp
  have yset: "set (years recs) = Year ` set recs"
    unfolding years_def by (simp add: set_unique)
  have sset: "set (states recs) = State ` set recs"
    unfolding states_def by (simp add: set_unique)
  have a: "year_selected recs = Inr (Some (last (years recs)))"
    unfolding year_selected_def using yne by (rule selectbox_last)
  have b: "state_selected recs = Inr (Some (hd (states recs)))"
    unfolding state_selected_def using sne by (rule selectbox_first)
  have c: "last (years recs) = Max (Year ` set recs)"
    using sorted_last_Max [OF ys yne] yset by simp
  have d: "hd (states recs) = Min (State ` set recs)"
    using sorted_hd_Min [OF ss sne] sset by simp
  show ?thesis using a b c d by simp
qed

text \<open>Two rows, Benue in 2015 and Abia in 2014: the defaults are 2015 and Abia.\<close>

theorem selector_defaults_witness:
  "recs_two \<noteq> []
   \<and> year_selected recs_two = Inr (Some 2015)
   \<and> state_selected recs_two = Inr (Some ''Abia'')"
proof -
  have h: "recs_two \<noteq> []" by (simp add: recs_two_def)
  have m: "Max (Year ` set recs_two) = 2015" by (simp add: recs_two_def)
  have n: "Min (State ` set recs_two) = ''Abia''"
    by (simp add: recs_two_def)
  show ?thesis using h selector_defaults [OF h] m n by simp
qed

section \<open>C5: the series of a state\<close>

lemma df_new_Inr_long_rows:
  assumes "df_new gdf = Inr recs"
  shows "recs = long_rows (rows gdf) [2014..2024]"
proof (cases "list_all (\<lambda>c. c \<in> set (columns gdf)) (''State'' # value_vars)")
  case True
  then show ?thesis using df_new_closed_form [of gdf] assms by simp
next
  case False
  then show ?thesis using df_new_KeyError [of gdf] assms by simp
qed

lemma in_long_rows:
  "r \<in> set (long_rows fs ys) \<longleftrightarrow>
     (\<exists>f \<in> set fs. \<exists>y \<in> set ys.
        r = \<lparr>State = feat_State f, Year = y, Rainfall_mm = feat_attr f (year_column y)\<rparr>)"
  unfolding long_rows_def by auto

lemma filter_feat_singleton:
  assumes "distinct (map feat_State fs)" "f \<in> set fs"
  shows "filter (\<lambda>g. feat_State g = feat_State f) fs = [f]"
  using assms
proof (induction fs)
  case Nil
  then show ?case by simp
next
  case (Cons g fs)
  show ?case
  proof (cases "g = f")
    case True
    then have "feat_State f \<notin> feat_State ` set fs" using Cons.prems(1) by simp
    then have "filter (\<lambda>g. feat_State g = feat_State f) fs = []"
      unfolding filter_empty_conv by (metis imageI)
    with True show ?thesis by simp
  next
    case False
    then have "f \<in> set fs" using Cons.prems(2) by simp
    moreover from this have "feat_State g \<noteq> feat_State f"
      using Cons.prems(1) by auto
    ultimately show ?thesis using Cons by simp
  qed
qed

lemma filter_state_long_rows:
  assumes "distinct (map feat_State fs)" "f \<in> set fs"
  shows "filter (\<lambda>r. State r = feat_State f) (long_rows fs ys)
         = map (\<lambda>y. \<lparr>State = feat_State f, Year = y,
                      Rainfall_mm = feat_attr f (year_column y)\<rparr>) ys"
proof (induction ys)
  case Nil
  then show ?case by (simp add: long_rows_def)
next
  case (Cons y ys)
  have "filter (\<lambda>r. State r = feat_State f)
          (map (\<lambda>g. \<lparr>State = feat_State g, Year = y,
                      Rainfall_mm = feat_attr g (year_column y)\<rparr>) fs)
        = map (\<lambda>g. \<lparr>State = feat_State g, Year = y,
                      Rainfall_mm = feat_attr g (year_column y)\<rparr>)
            (filter (\<lambda>g. feat_State g = feat_State f) fs)"
    by (simp add: filter_map comp_def)
  also have "\<dots> = [\<lparr>State = feat_State f, Year = y,
                      Rainfall_mm = feat_attr f (year_column y)\<rparr>]"
    by (simp add: filter_feat_singleton [OF assms])
  finally show ?case
    using Cons by (simp add: long_rows_def)
qed

lemma state_data_long_rows:
  assumes "distinct (map feat_State fs)" "f \<in> set fs" "sorted ys"
  shows "state_data (long_rows fs ys) (feat_State f)
         = map (\<lambda>y. \<lparr>State = feat_State f, Year = y,
                      Rainfall_mm = feat_attr f (year_column y)\<rparr>) ys"
proof -
  let ?series = "map (\<lambda>y. \<lparr>State = feat_State f, Year = y,
                           Rainfall_mm = feat_attr f (year_column y)\<rparr>) ys"
  have "map Year ?series = ys" by (simp add: comp_def)
  then have "sort_key Year ?series = ?series"
    using assms(3) by (intro sort_key_id_if_sorted) simp
  then show ?thesis
    unfolding state_data_def by (simp only: filter_state_long_rows [OF assms(1,2)])
qed

text \<open>
  Claim C5. When the reshaping succeeded and the wide table has one row per state (the
  state names are distinct), the series of line 143 for a state that occurs in the long
  table has exactly one row per year, the years being 2014, 2015, ..., 2024 in this
  order: strictly ascending and without a gap. Every row is a row of that state, and the
  values are the state's cells of the eleven year columns.
\<close>

theorem series_of_state:
  assumes "df_new gdf = Inr recs"
    and "distinct (map feat_State (rows gdf))"
    and "st \<in> State ` set recs"
  shows "map Year (state_data recs st) = [2014..2024]
       \<and> length (state_data recs st) = 11
       \<and> sorted_wrt (<) (map Year (state_data recs st))
       \<and> (\<forall>r \<in> set (state_data recs st). State r = st \<and> r \<in> set recs)
       \<and> (\<exists>f \<in> set (rows gdf). feat_State f = st
             \<and> map Rainfall_mm (state_data recs st)
                 = map (\<lambda>y. feat_attr f (year_column y)) [2014..2024])"
proof -
  have recs: "recs = long_rows (rows gdf) [2014..2024]"
    using assms(1) by (rule df_new_Inr_long_rows)
  obtain f where f: "f \<in> set (rows gdf)" "feat_State f = st"
    using assms(3) unfolding recs by (auto simp: in_long_rows simp del: set_upto)
  let ?series = "map (\<lambda>y. \<lparr>State = feat_State f, Year = y,
                           Rainfall_mm = feat_attr f (year_column y)\<rparr>) [2014..2024]"
  have sd: "state_data recs st = ?series"
    unfolding recs f(2) [symmetric]
    by (rule state_data_long_rows [OF assms(2) f(1)]) simp
  have a: "map Year (state_data recs st) = [2014..2024]"
    unfolding sd by (simp add: comp_def)
  have b: "length (state_data recs st) = 11"
    unfolding sd by simp
  have c: "sorted_wrt (<) (map Year (state_data recs st))"
    unfolding a by (simp add: strict_sorted_iff)
  have d: "\<forall>r \<in> set (state_data recs st). State r = st \<and> r \<in> set recs"
    unfolding state_data_def by simp
  have e: "map Rainfall_mm (state_data recs st)
           = map (\<lambda>y. feat_attr f (year_column y)) [2014..2024]"
    unfolding sd by (simp add: comp_def)
  from f e have e': "\<exists>f \<in> set (rows gdf). feat_State f = st
             \<and> map Rainfall_mm (state_data recs st)
                 = map (\<lambda>y. feat_attr f (year_column y)) [2014..2024]"
    by blast
  show ?thesis by (intro conjI a b c d e')
qed

text \<open>The sample table: state A has 100 mm in 2014 and 150 mm from 2015 to 2024.\<close>

theorem series_of_state_witness:
  "df_new gdf_abc = Inr (long_rows (rows gdf_abc) [2014..2024])
   \<and> distinct (map feat_State (rows gdf_abc))
   \<and> ''A'' \<in> State ` set (long_rows (rows gdf_abc) [2014..2024])
   \<and> map Year (state_data (long_rows (rows gdf_abc) [2014..2024]) ''A'') = [2014..2024]
   \<and> length (state_data (long_rows (rows gdf_abc) [2014..2024]) ''A'') = 11"
proof -
  let ?recs = "long_rows (rows gdf_abc) [2014..2024]"
  have h1: "df_new gdf_abc = Inr ?recs"
    by (rule df_new_closed_form [OF gdf_abc_columns])
  have h2: "distinct (map feat_State (rows gdf_abc))"
    by (simp add: gdf_abc_def)
  have "\<lparr>State = ''A'', Year = 2014, Rainfall_mm = 100\<rparr> \<in> set ?recs"
    unfolding in_long_rows by (simp add: gdf_abc_def year_column_def py_str_def str_nat.simps digit_char_def)
  then have h3: "''A'' \<in> State ` set ?recs"
    by force
  have r: "map Year (state_data ?recs ''A'') = [2014..2024]"
      "length (state_data ?recs ''A'') = 11"
    using series_of_state [OF h1 h2 h3] by blast+
  show ?thesis by (intro conjI h1 h2 h3 r)
qed

section \<open>C3: the three largest and the three smallest\<close>

lemma take_sorted_closed:
  fixes f :: "'a \<Rightarrow> 'b::linorder"
  assumes "sorted (map f xs)" "b \<in> set (take n xs)" "t \<in> set xs" "f t < f b"
  shows "t \<in> set (take n xs)"
proof (rule ccontr)
  assume "t \<notin> set (take n xs)"
  moreover have "set xs = set (take n xs) \<union> set (drop n xs)"
    by (metis append_take_drop_id set_append)
  ultimately have t: "t \<in> set (drop n xs)" using assms(3) by blast
  have "sorted (map f (take n xs) @ map f (drop n xs))"
    using assms(1) by (metis append_take_drop_id map_append)
  then have "f b \<le> f t"
    using assms(2) t by (auto simp: sorted_append)
  with assms(4) show False by simp
qed

lemma take_drop_sorted_le:
  fixes f :: "'a \<Rightarrow> 'b::linorder"
  assumes "sorted (map f xs)" "t \<in> set (take n xs)" "r \<in> set (drop n xs)"
  shows "f t \<le> f r"
proof -
  have "sorted (map f (take n xs) @ map f (drop n xs))"
    using assms(1) by (metis append_take_drop_id map_append)
  then show ?thesis using assms(2,3) by (auto simp: sorted_append)
qed

lemma nlargest_length: "length (nlargest n col df) = min n (length df)"
  by (simp add: nlargest_def min.commute)

lemma nsmallest_length: "length (nsmallest n col df) = min n (length df)"
  by (simp add: nsmallest_def min.commute)

lemma nlargest_descending: "sorted (rev (map col (nlargest n col df)))"
proof -
  have "sorted (map (\<lambda>r. - col r) (sort_key (\<lambda>r. - col r) df))" by simp
  then have "sorted (take n (map (\<lambda>r. - col r) (sort_key (\<lambda>r. - col r) df)))"
    by (rule sorted_wrt_take)
  then have "sorted (map uminus (map col (nlargest n col df)))"
    by (simp add: nlargest_def take_map comp_def)
  then have "sorted_wrt (\<lambda>x y. - x \<le> - y) (map col (nlargest n col df))"
    by (simp only: sorted_map)
  then have "sorted_wrt (\<lambda>x y. y \<le> x) (map col (nlargest n col df))"
    by simp
  then show ?thesis by (simp only: sorted_wrt_rev)
qed

lemma nsmallest_ascending: "sorted (map col (nsmallest n col df))"
proof -
  have "sorted (take n (map col (sort_key col df)))"
    by (rule sorted_wrt_take) simp
  then show ?thesis by (simp add: nsmallest_def take_map)
qed

lemma nlargest_rest:
  "mset (nlargest n col df @ drop n (sort_key (\<lambda>r. - col r) df)) = mset df
   \<and> (\<forall>t \<in> set (nlargest n col df). \<forall>r \<in> set (drop n (sort_key (\<lambda>r. - col r) df)).
          col r \<le> col t)"
proof -
  let ?s = "sort_key (\<lambda>r. - col r) df"
  have "nlargest n col df @ drop n ?s = ?s" by (simp add: nlargest_def)
  then have a: "mset (nlargest n col df @ drop n ?s) = mset df" by simp
  have s: "sorted (map (\<lambda>r. - col r) ?s)" by simp
  have b: "col r \<le> col t" if "t \<in> set (nlargest n col df)" "r \<in> set (drop n ?s)" for t r
    using take_drop_sorted_le [OF s, of t n r] that by (simp add: nlargest_def)
  show ?thesis using a b by blast
qed

lemma nsmallest_rest:
  "mset (nsmallest n col df @ drop n (sort_key col df)) = mset df
   \<and> (\<forall>b \<in> set (nsmallest n col df). \<forall>r \<in> set (drop n (sort_key col df)).
          col b \<le> col r)"
proof -
  let ?s = "sort_key col df"
  have "nsmallest n col df @ drop n ?s = ?s" by (simp add: nsmallest_def)
  then have a: "mset (nsmallest n col df @ drop n ?s) = mset df" by simp
  have s: "sorted (map col ?s)" by simp
  have b: "col b \<le> col r" if "b \<in> set (nsmallest n col df)" "r \<in> set (drop n ?s)" for b r
    using take_drop_sorted_le [OF s, of b n r] that by (simp add: nsmallest_def)
  show ?thesis using a b by blast
qed

lemma nlargest_stable:
  "prefix (filter (\<lambda>r. col r = v) (nlargest n col df)) (filter (\<lambda>r. col r = v) df)"
proof -
  have "prefix (filter (\<lambda>r. - col r = - v) (take n (sort_key (\<lambda>r. - col r) df)))
               (filter (\<lambda>r. - col r = - v) (sort_key (\<lambda>r. - col r) df))"
    by (intro filter_mono_prefix take_is_prefix)
  moreover have "filter (\<lambda>r. - col r = - v) (sort_key (\<lambda>r. - col r) df)
                 = filter (\<lambda>r. - col r = - v) df"
    by (rule sort_key_stable)
  ultimately show ?thesis
    by (simp add: nlargest_def)
qed

lemma nsmallest_stable:
  "prefix (filter (\<lambda>r. col r = v) (nsmallest n col df)) (filter (\<lambda>r. col r = v) df)"
proof -
  have "prefix (filter (\<lambda>r. col r = v) (take n (sort_key col df)))
               (filter (\<lambda>r. col r = v) (sort_key col df))"
    by (intro filter_mono_prefix take_is_prefix)
  then show ?thesis
    by (simp add: nsmallest_def sort_key_stable)
qed

lemma nlargest_subset: "set (nlargest n col df) \<subseteq> set df"
  unfolding nlargest_def by (metis set_sort set_take_subset)

lemma nsmallest_subset: "set (nsmallest n col df) \<subseteq> set df"
  unfolding nsmallest_def by (metis set_sort set_take_subset)

lemma top_above_low:
  assumes "t \<in> set (nlargest n col df)" "b \<in> set (nsmallest m col df)"
    and "t \<notin> set (nsmallest m col df)"
  shows "col b \<le> col t"
proof (rule ccontr)
  assume "\<not> col b \<le> col t"
  then have lt: "col t < col b" by simp
  have "t \<in> set (sort_key col df)" using assms(1) nlargest_subset by fastforce
  then have "t \<in> set (take m (sort_key col df))"
    using take_sorted_closed [of col "sort_key col df" b m t] assms(2) lt
    by (simp add: nsmallest_def)
  with assms(3) show False by (simp add: nsmallest_def)
qed

text \<open>
  Claim C3. For every slice, \<open>top3\<close> and \<open>low3\<close> (lines 78 and 79) have \<open>min 3 n\<close> rows
  for a slice of \<open>n\<close> rows: at most three, and all rows when there are fewer than three.
  \<open>top3\<close> is in descending and \<open>low3\<close> in ascending order of rainfall; the rows left out
  of \<open>top3\<close> have no larger, those left out of \<open>low3\<close> no smaller rainfall than any row
  kept; rows of equal rainfall appear in the order they have in the slice, the earlier
  ones being kept first. Whenever both results are non-empty and share no row, the
  largest rainfall in \<open>low3\<close> is at most the smallest rainfall in \<open>top3\<close>.
\<close>

theorem rank_extremes:
  fixes yd :: "int melted list"
  shows "length (top3 yd) = min 3 (length yd)
       \<and> length (low3 yd) = min 3 (length yd)
       \<and> sorted (rev (map snd (top3 yd)))
       \<and> sorted (map snd (low3 yd))
       \<and> (\<exists>rest. mset (top3 yd @ rest) = mset (map (\<lambda>r. (State r, Rainfall_mm r)) yd)
             \<and> (\<forall>t \<in> set (top3 yd). \<forall>r \<in> set rest. snd r \<le> snd t))
       \<and> (\<exists>rest. mset (low3 yd @ rest) = mset (map (\<lambda>r. (State r, Rainfall_mm r)) yd)
             \<and> (\<forall>b \<in> set (low3 yd). \<forall>r \<in> set rest. snd b \<le> snd r))
       \<and> (\<forall>v. prefix (filter (\<lambda>p. snd p = v) (top3 yd))
                       (filter (\<lambda>p. snd p = v) (map (\<lambda>r. (State r, Rainfall_mm r)) yd)))
       \<and> (\<forall>v. prefix (filter (\<lambda>p. snd p = v) (low3 yd))
                       (filter (\<lambda>p. snd p = v) (map (\<lambda>r. (State r, Rainfall_mm r)) yd)))
       \<and> (length yd < 3 \<longrightarrow>
             mset (top3 yd) = mset (map (\<lambda>r. (State r, Rainfall_mm r)) yd)
           \<and> mset (low3 yd) = mset (map (\<lambda>r. (State r, Rainfall_mm r)) yd))
       \<and> (top3 yd \<noteq> [] \<and> low3 yd \<noteq> [] \<and> set (top3 yd) \<inter> set (low3 yd) = {} \<longrightarrow>
             Max (snd ` set (low3 yd)) \<le> Min (snd ` set (top3 yd)))"
proof -
  let ?proj = "\<lambda>r::int melted. (State r, Rainfall_mm r)"
  let ?top = "nlargest 3 Rainfall_mm yd"
  let ?low = "nsmallest 3 Rainfall_mm yd"
  let ?trest = "drop 3 (sort_key (\<lambda>r. - Rainfall_mm r) yd)"
  let ?lrest = "drop 3 (sort_key Rainfall_mm yd)"
  have snd_proj: "map snd (map ?proj xs) = map Rainfall_mm xs" for xs
    by (simp add: comp_def)
  have filter_proj: "filter (\<lambda>p. snd p = v) (map ?proj xs)
                     = map ?proj (filter (\<lambda>r. Rainfall_mm r = v) xs)" for v xs
    by (simp add: filter_map comp_def)
  have c1: "length (top3 yd) = min 3 (length yd)"
    by (simp add: top3_def nlargest_length)
  have c2: "length (low3 yd) = min 3 (length yd)"
    by (simp add: low3_def nsmallest_length)
  have c3: "sorted (rev (map snd (top3 yd)))"
    unfolding top3_def snd_proj by (rule nlargest_descending)
  have c4: "sorted (map snd (low3 yd))"
    unfolding low3_def snd_proj by (rule nsmallest_ascending)
  have c5: "\<exists>rest. mset (top3 yd @ rest) = mset (map ?proj yd)
             \<and> (\<forall>t \<in> set (top3 yd). \<forall>r \<in> set rest. snd r \<le> snd t)"
  proof (intro exI [of _ "map ?proj ?trest"] conjI)
    have "top3 yd @ map ?proj ?trest = map ?proj (?top @ ?trest)"
      by (simp add: top3_def)
    then show "mset (top3 yd @ map ?proj ?trest) = mset (map ?proj yd)"
      using nlargest_rest [of 3 Rainfall_mm yd] by (simp only: mset_map)
    show "\<forall>t \<in> set (top3 yd). \<forall>r \<in> set (map ?proj ?trest). snd r \<le> snd t"
      using nlargest_rest [of 3 Rainfall_mm yd] by (auto simp: top3_def)
  qed
  have c6: "\<exists>rest. mset (low3 yd @ rest) = mset (map ?proj yd)
             \<and> (\<forall>b \<in> set (low3 yd). \<forall>r \<in> set rest. snd b \<le> snd r)"
  proof (intro exI [of _ "map ?proj ?lrest"] conjI)
    have "low3 yd @ map ?proj ?lrest = map ?proj (?low @ ?lrest)"
      by (simp add: low3_def)
    then show "mset (low3 yd @ map ?proj ?lrest) = mset (map ?proj yd)"
      using nsmallest_rest [of 3 Rainfall_mm yd] by (simp only: mset_map)
    show "\<forall>b \<in> set (low3 yd). \<forall>r \<in> set (map ?proj ?lrest). snd b \<le> snd r"
      using nsmallest_rest [of 3 Rainfall_mm yd] by (auto simp: low3_def)
  qed
  have c7: "\<forall>v. prefix (filter (\<lambda>p. snd p = v) (top3 yd))
                        (filter (\<lambda>p. snd p = v) (map ?proj yd))"
    unfolding top3_def filter_proj by (intro allI map_mono_prefix nlargest_stable)
  have c8: "\<forall>v. prefix (filter (\<lambda>p. snd p = v) (low3 yd))
                        (filter (\<lambda>p. snd p = v) (map ?proj yd))"
    unfolding low3_def filter_proj by (intro allI map_mono_prefix nsmallest_stable)
  have c9: "length yd < 3 \<longrightarrow>
              mset (top3 yd) = mset (map ?proj yd) \<and> mset (low3 yd) = mset (map ?proj yd)"
    by (simp add: top3_def low3_def nlargest_def nsmallest_def)
  have c10: "top3 yd \<noteq> [] \<and> low3 yd \<noteq> [] \<and> set (top3 yd) \<inter> set (low3 yd) = {} \<longrightarrow>
               Max (snd ` set (low3 yd)) \<le> Min (snd ` set (top3 yd))"
  proof (intro impI)
    assume h: "top3 yd \<noteq> [] \<and> low3 yd \<noteq> [] \<and> set (top3 yd) \<inter> set (low3 yd) = {}"
    have le: "snd b \<le> snd t" if tb: "t \<in> set (top3 yd)" "b \<in> set (low3 yd)" for t b
    proof -
      obtain rt where rt: "rt \<in> set ?top" "t = ?proj rt"
        using tb(1) by (auto simp: top3_def)
      obtain rb where rb: "rb \<in> set ?low" "b = ?proj rb"
        using tb(2) by (auto simp: low3_def)
      have "rt \<notin> set ?low"
      proof
        assume "rt \<in> set ?low"
        then have "t \<in> set (low3 yd)" using rt(2) by (simp add: low3_def)
        with tb(1) h show False by blast
      qed
      then have "Rainfall_mm rb \<le> Rainfall_mm rt"
        using top_above_low [OF rt(1) rb(1)] by simp
      then show ?thesis by (simp add: rt(2) rb(2))
    qed
    have "\<forall>a \<in> snd ` set (low3 yd). a \<le> Min (snd ` set (top3 yd))"
      using h le by (simp add: Min_ge_iff)
    then show "Max (snd ` set (low3 yd)) \<le> Min (snd ` set (top3 yd))"
      using h by (simp add: Max_le_iff)
  qed
  show ?thesis
    by (intro conjI c1 c2 c3 c4 c5 c6 c7 c8 c9 c10)
qed

text \<open>
  The slice of seven states: the two states at 2500 mm lead the top three in their
  original order, the two at 600 mm follow Yobe in the bottom three; the rankings share
  no row and 600 is at most 2100. The slice of two rows returns both rows.
\<close>

theorem rank_extremes_witness:
  "top3 yd_seven = [(''Cross River'', 2500), (''Delta'', 2500), (''Abia'', 2100)]
   \<and> low3 yd_seven = [(''Yobe'', 450), (''Borno'', 600), (''Kano'', 600)]
   \<and> set (top3 yd_seven) \<inter> set (low3 yd_seven) = {}
   \<and> Max (snd ` set (low3 yd_seven)) \<le> Min (snd ` set (top3 yd_seven))
   \<and> length recs_two < 3
   \<and> mset (top3 recs_two) = mset (map (\<lambda>r. (State r, Rainfall_mm r)) recs_two)"
proof -
  have t: "top3 yd_seven = [(''Cross River'', 2500), (''Delta'', 2500), (''Abia'', 2100)]"
    by (simp add: top3_def nlargest_def yd_seven_def)
  have l: "low3 yd_seven = [(''Yobe'', 450), (''Borno'', 600), (''Kano'', 600)]"
    by (simp add: low3_def nsmallest_def yd_seven_def)
  have d: "set (top3 yd_seven) \<inter> set (low3 yd_seven) = {}"
    unfolding t l by simp
  have ne: "top3 yd_seven \<noteq> [] \<and> low3 yd_seven \<noteq> [] \<and> set (top3 yd_seven) \<inter> set (low3 yd_seven) = {}"
    using d unfolding t l by simp
  have m: "Max (snd ` set (low3 yd_seven)) \<le> Min (snd ` set (top3 yd_seven))"
    using rank_extremes [of yd_seven] ne by blast
  have s: "length recs_two < 3" by (simp add: recs_two_def)
  have a: "mset (top3 recs_two) = mset (map (\<lambda>r. (State r, Rainfall_mm r)) recs_two)"
    using rank_extremes [of recs_two] s by blast
  show ?thesis by (intro conjI t l d m s a)
qed

section \<open>Rounding and the mean\<close>












lemma series_mean_None: "series_mean [] = None"
  by (simp add: series_mean_def)







section \<open>C4: the national average\<close>



section \<open>C10: the average on the colour scale\<close>




section \<open>C8: the year of a column name\<close>













section \<open>C2: what a run writes into the loaded table\<close>










section \<open>C7: the filters and the empty slice\<close>






section \<open>The sample table, end to end\<close>

lemma year_column_2014: "year_column 2014 = ''2014_mean''"
  by (simp add: year_column_def py_str_def str_nat.simps digit_char_def)

lemma year_column_2015: "year_column 2015 = ''2015_mean''"
  by (simp add: year_column_def py_str_def str_nat.simps digit_char_def)

lemma sample_slice_2014:
  "year_data (long_rows (rows gdf_abc) [2014..2024]) 2014
   = [\<lparr>State = ''A'', Year = 2014, Rainfall_mm = 100\<rparr>,
      \<lparr>State = ''B'', Year = 2014, Rainfall_mm = 200\<rparr>,
      \<lparr>State = ''C'', Year = 2014, Rainfall_mm = 300\<rparr>]"
proof -
  have "year_data (long_rows (rows gdf_abc) [2014..2024]) 2014
        = map (\<lambda>f. \<lparr>State = feat_State f, Year = 2014,
                      Rainfall_mm = feat_attr f (year_column 2014)\<rparr>) (rows gdf_abc)"
    by (rule year_data_long_rows_in) simp_all
  then show ?thesis
    unfolding year_column_2014 by (simp add: gdf_abc_def)
qed

text \<open>
  The table of three states with 100, 200 and 300 mm in 2014 and 150, 50 and 300 mm
  in 2015: for 2014 the top three are C, B, A, the bottom three A, B, C, and the
  national average is 200; the series of A starts with 100 in 2014 and 150 in 2015.
\<close>

theorem sample_end_to_end:
  "df_new gdf_abc = Inr (long_rows (rows gdf_abc) [2014..2024])
   \<and> top3 (year_data (long_rows (rows gdf_abc) [2014..2024]) 2014)
       = [(''C'', 300), (''B'', 200), (''A'', 100)]
   \<and> low3 (year_data (long_rows (rows gdf_abc) [2014..2024]) 2014)
       = [(''A'', 100), (''B'', 200), (''C'', 300)]
   \<and> national_avg (year_data (long_rows (rows gdf_abc) [2014..2024]) 2014) = Inr 200
   \<and> map (\<lambda>r. (Year r, Rainfall_mm r))
        (take 2 (state_data (long_rows (rows gdf_abc) [2014..2024]) ''A''))
       = [(2014, 100), (2015, 150)]"
proof -
  let ?recs = "long_rows (rows gdf_abc) [2014..2024]"
  have a: "df_new gdf_abc = Inr ?recs"
    by (rule df_new_closed_form [OF gdf_abc_columns])
  have b: "top3 (year_data ?recs 2014) = [(''C'', 300), (''B'', 200), (''A'', 100)]"
    unfolding sample_slice_2014 by (simp add: top3_def nlargest_def)
  have c: "low3 (year_data ?recs 2014) = [(''A'', 100), (''B'', 200), (''C'', 300)]"
    unfolding sample_slice_2014 by (simp add: low3_def nsmallest_def)
  have d: "national_avg (year_data ?recs 2014) = Inr 200"
    unfolding sample_slice_2014
    by (simp add: national_avg_def series_mean_def np_round_def rint_def)
  have f: "\<lparr>feat_State = ''A'',
             feat_attr = (\<lambda>c. if c = ''2014_mean'' then 100 else 150)\<rparr> \<in> set (rows gdf_abc)"
    by (simp add: gdf_abc_def)
  have "distinct (map feat_State (rows gdf_abc))" by (simp add: gdf_abc_def)
  from state_data_long_rows [OF this f, of "[2014..2024]"]
  have "state_data ?recs ''A''
        = map (\<lambda>y. \<lparr>State = ''A'', Year = y,
                     Rainfall_mm = (if year_column y = ''2014_mean'' then 100 else 150)\<rparr>)
            [2014..2024]"
    by simp
  then have e: "map (\<lambda>r. (Year r, Rainfall_mm r)) (take 2 (state_data ?recs ''A''))
                = [(2014, 100), (2015, 150)]"
    by (simp add: upto_years year_column_2014 year_column_2015)
  show ?thesis by (intro conjI a b c d e)
qed

end
